theory Spec2Isabelle
  imports Complex_Main
begin

section \<open>Data model\<close>

text \<open>
  The tables of \<^verbatim>\<open>prisma/migrations/.../migration.sql\<close> and the interfaces of
  \<^verbatim>\<open>src/types\<close>. Timestamps are milliseconds (\<^verbatim>\<open>Date.getTime()\<close>, \<^verbatim>\<open>TIMESTAMP(3)\<close>)
  on the server's local clock; nullable columns are options. The service type is a
  \<^verbatim>\<open>TEXT\<close> column, so at run time it is any string; the union type
  \<^verbatim>\<open>ServiceType\<close> only exists for the type checker.
\<close>

datatype TokenStatus = WAITING | SERVING | COMPLETED

datatype CounterStatus = ACTIVE | INACTIVE

record token =
  token_id :: nat
  tokenNumber :: string
  serviceType :: string
  status :: TokenStatus
  queuePosition :: "int option"
  counterId :: "nat option"
  createdAt :: int
  calledAt :: "int option"
  completedAt :: "int option"

record counter =
  counter_id :: nat
  counter_number :: int
  counter_status :: CounterStatus
  counter_createdAt :: int

text \<open>
  The database. \<open>tokens\<close> holds the rows of table \<^verbatim>\<open>tokens\<close> in the order in which the
  engine yields them to a query that asks for no further ordering; the code has no control
  over that order. \<open>tokenSeq\<close> is the last value handed out by the \<^verbatim>\<open>SERIAL\<close> sequence
  of \<^verbatim>\<open>tokens.id\<close>.
\<close>

record store =
  tokens :: "token list"
  counters :: "counter list"
  tokenSeq :: nat

text \<open>\<^verbatim>\<open>TokenWithDetails\<close>; the ISO strings of the three dates are kept as timestamps.\<close>

record tokenWithDetails =
  d_tokenNumber :: string
  d_serviceType :: string
  d_status :: TokenStatus
  d_queuePosition :: int
  d_estimatedWaitTime :: int
  d_counter :: "int option"
  d_createdAt :: int
  d_calledAt :: "int option"
  d_completedAt :: "int option"

text \<open>
  What the services throw. The code throws plain \<^verbatim>\<open>Error\<close> objects that differ in their
  message only, and lets the errors of the Prisma client pass through:
  \<^item> \<open>UniqueNumberExhausted\<close>: \<^verbatim>\<open>'Unable to generate unique token number'\<close>;
  \<^item> \<open>CounterNotFound\<close>: \<^verbatim>\<open>'Counter not found'\<close>;
  \<^item> \<open>CounterInactive\<close>: \<^verbatim>\<open>'Counter is inactive'\<close>;
  \<^item> \<open>CounterAlreadyServing\<close>: \<^verbatim>\<open>'Counter is already serving a token'\<close>;
  \<^item> \<open>CounterBusy\<close>: \<^verbatim>\<open>'Cannot deactivate counter with active tokens'\<close>;
  \<^item> \<open>RecordNotFound\<close>: Prisma's error for an \<^verbatim>\<open>update\<close> whose \<^verbatim>\<open>where\<close> matches no row;
  \<^item> \<open>ForeignKeyViolation\<close>: Prisma's error when \<^verbatim>\<open>tokens_counterId_fkey\<close> fails.
\<close>

datatype error =
    UniqueNumberExhausted
  | CounterNotFound
  | CounterInactive
  | CounterAlreadyServing
  | CounterBusy
  | RecordNotFound
  | ForeignKeyViolation

section \<open>The queries of the Prisma client that the services use\<close>

definition count_where :: "('a \<Rightarrow> bool) \<Rightarrow> 'a list \<Rightarrow> nat" where
  "count_where P rows = length (filter P rows)"

definition findUnique_tokenNumber :: "token list \<Rightarrow> string \<Rightarrow> token option" where
  "findUnique_tokenNumber rows tn = find (\<lambda>t. tokenNumber t = tn) rows"

definition findUnique_counter :: "counter list \<Rightarrow> nat \<Rightarrow> counter option" where
  "findUnique_counter rows cid = find (\<lambda>c. counter_id c = cid) rows"

text \<open>
  \<^verbatim>\<open>findFirst({ where, orderBy: { createdAt: 'asc' } })\<close>: the first of the selected rows
  under the ordering by \<open>createdAt\<close>. The query names no second key, and SQL leaves the
  order of rows with equal keys to the engine: among the selected rows with the least
  \<open>createdAt\<close> the result is the one the engine yields first, that is, the first one
  in the list of rows. Every order an engine may choose is the list of some store.
\<close>

definition findFirst_orderBy_createdAt :: "(token \<Rightarrow> bool) \<Rightarrow> token list \<Rightarrow> token option" where
  "findFirst_orderBy_createdAt P rows =
     (case filter P rows of
        [] \<Rightarrow> None
      | t # ts \<Rightarrow> Some (foldl (\<lambda>best u. if createdAt u < createdAt best then u else best) t ts))"

definition update_tokenNumber :: "token list \<Rightarrow> string \<Rightarrow> (token \<Rightarrow> token) \<Rightarrow> token list" where
  "update_tokenNumber rows tn f = map (\<lambda>t. if tokenNumber t = tn then f t else t) rows"

definition update_counter :: "counter list \<Rightarrow> nat \<Rightarrow> (counter \<Rightarrow> counter) \<Rightarrow> counter list" where
  "update_counter rows cid f = map (\<lambda>c. if counter_id c = cid then f c else c) rows"

section \<open>QueueManager\<close>

subsection \<open>Display codes\<close>

text \<open>\<^verbatim>\<open>String(n)\<close> for a natural number and \<^verbatim>\<open>s.padStart(n, c)\<close>.\<close>

definition digit :: "nat \<Rightarrow> char" where
  "digit d = ''0123456789'' ! d"

fun String_nat :: "nat \<Rightarrow> string" where
  "String_nat n = (if n < 10 then [digit n] else String_nat (n div 10) @ [digit (n mod 10)])"

declare String_nat.simps [simp del]

definition padStart :: "nat \<Rightarrow> char \<Rightarrow> string \<Rightarrow> string" where
  "padStart n c s = replicate (n - length s) c @ s"

text \<open>
  \<^verbatim>\<open>prefixMap[serviceType] || 'G'\<close>. The table is an object literal, so the lookup
  also finds the members that every object inherits from \<^verbatim>\<open>Object.prototype\<close>. These
  are functions, and for \<^verbatim>\<open>__proto__\<close> the prototype object itself: all truthy, so for
  their names the fallback is not taken, and the template formats the member the way
  Node.js prints it. Every other string that is no key of the table gets the prefix of
  General Inquiry.
\<close>

definition prefixMap :: "(string \<times> string) list" where
  "prefixMap =
     [(''Parcel Drop-off'', ''P''),
      (''Banking Services'', ''B''),
      (''General Inquiry'', ''G''),
      (''Document Verification'', ''D'')]"

definition objectPrototypeMembers :: "string list" where
  "objectPrototypeMembers =
     [''constructor'', ''__defineGetter__'', ''__defineSetter__'', ''hasOwnProperty'',
      ''__lookupGetter__'', ''__lookupSetter__'', ''isPrototypeOf'', ''propertyIsEnumerable'',
      ''toString'', ''valueOf'', ''__proto__'', ''toLocaleString'']"

definition inheritedMemberString :: "string \<Rightarrow> string" where
  "inheritedMemberString name =
     (if name = ''__proto__'' then ''[object Object]''
      else if name = ''constructor'' then ''function Object() { [native code] }''
      else ''function '' @ name @ ''() { [native code] }'')"

definition getServicePrefix :: "string \<Rightarrow> string" where
  "getServicePrefix svc =
     (case map_of prefixMap svc of
        Some p \<Rightarrow> p
      | None \<Rightarrow> if svc \<in> set objectPrototypeMembers then inheritedMemberString svc else ''G'')"

text \<open>The template \<^verbatim>\<open>`${prefix}-${String(tokenNum).padStart(3, '0')}`\<close>.\<close>

definition formatTokenNumber :: "string \<Rightarrow> nat \<Rightarrow> string" where
  "formatTokenNumber prefix tokenNum = prefix @ ''-'' @ padStart 3 (CHR ''0'') (String_nat tokenNum)"

subsection \<open>The day window\<close>

text \<open>
  \<^verbatim>\<open>setHours(0, 0, 0, 0)\<close> and \<^verbatim>\<open>setHours(23, 59, 59, 999)\<close> on the current time, for a
  local day of 24 hours.
\<close>

definition msPerDay :: int where
  "msPerDay = 86400000"

definition todayStart :: "int \<Rightarrow> int" where
  "todayStart now = now - now mod msPerDay"

definition todayEnd :: "int \<Rightarrow> int" where
  "todayEnd now = todayStart now + (msPerDay - 1)"

subsection \<open>estimateWaitTime\<close>

text \<open>
  The service time of the selected tokens is summed by \<^verbatim>\<open>reduce\<close>, divided by their
  number and by 60000, rounded by \<^verbatim>\<open>Math.round\<close> (\<open>round x = \<lfloor>x + 1/2\<rfloor>\<close>, halves go
  up) and raised to 2 if it is less. The divisions are taken exactly.
\<close>

definition completedTokens :: "store \<Rightarrow> int \<Rightarrow> token list" where
  "completedTokens s now =
     filter (\<lambda>t. status t = COMPLETED \<and> calledAt t \<noteq> None \<and> completedAt t \<noteq> None
                 \<and> now - 24 * 3600000 \<le> createdAt t) (tokens s)"

definition addServiceTime :: "int \<Rightarrow> token \<Rightarrow> int" where
  "addServiceTime acc t =
     (case calledAt t of
        None \<Rightarrow> acc
      | Some called \<Rightarrow> (case completedAt t of None \<Rightarrow> acc | Some done \<Rightarrow> acc + (done - called)))"

definition averageServiceTime :: "store \<Rightarrow> int \<Rightarrow> int" where
  "averageServiceTime s now =
     (let sel = completedTokens s now in
      if length sel > 0
      then max (round ((of_int (foldl addServiceTime 0 sel) :: rat) / of_nat (length sel) / 60000)) 2
      else 5)"

definition estimateWaitTime :: "store \<Rightarrow> int \<Rightarrow> int \<Rightarrow> int" where
  "estimateWaitTime s now pos = max 0 ((pos - 1) * averageServiceTime s now)"

subsection \<open>calculateQueuePosition, getNextToken, getTokenDetails\<close>

definition calculateQueuePosition :: "store \<Rightarrow> string \<Rightarrow> int" where
  "calculateQueuePosition s tn =
     (case findUnique_tokenNumber (tokens s) tn of
        None \<Rightarrow> 0
      | Some t \<Rightarrow>
          if status t \<noteq> WAITING then 0
          else int (count_where (\<lambda>u. status u = WAITING \<and> serviceType u = serviceType t
                                      \<and> createdAt u < createdAt t) (tokens s)) + 1)"

definition getNextToken :: "store \<Rightarrow> token option" where
  "getNextToken s = findFirst_orderBy_createdAt (\<lambda>t. status t = WAITING) (tokens s)"

text \<open>
  \<^verbatim>\<open>token.counter?.number || null\<close>: the number of the counter the token references,
  and \<^verbatim>\<open>null\<close> also when that number is 0.
\<close>

definition counterNumberOf :: "store \<Rightarrow> token \<Rightarrow> int option" where
  "counterNumberOf s t =
     (case counterId t of
        None \<Rightarrow> None
      | Some cid \<Rightarrow>
          (case findUnique_counter (counters s) cid of
             None \<Rightarrow> None
           | Some c \<Rightarrow> if counter_number c = 0 then None else Some (counter_number c)))"

definition getTokenDetails :: "store \<Rightarrow> int \<Rightarrow> string \<Rightarrow> tokenWithDetails option" where
  "getTokenDetails s now tn =
     (case findUnique_tokenNumber (tokens s) tn of
        None \<Rightarrow> None
      | Some t \<Rightarrow>
          (let currentPosition = (if status t = WAITING then calculateQueuePosition s tn else 0);
               estimatedWaitTime =
                 (if status t = WAITING then estimateWaitTime s now currentPosition else 0)
           in Some \<lparr>d_tokenNumber = tokenNumber t,
                    d_serviceType = serviceType t,
                    d_status = status t,
                    d_queuePosition = currentPosition,
                    d_estimatedWaitTime = estimatedWaitTime,
                    d_counter = counterNumberOf s t,
                    d_createdAt = createdAt t,
                    d_calledAt = calledAt t,
                    d_completedAt = completedAt t\<rparr>))"

subsection \<open>generateToken\<close>

text \<open>
  The \<^verbatim>\<open>do ... while (attempts < maxAttempts)\<close> loop of the transaction: the candidate
  number is \<open>todayTokens + attempts + 1\<close>, the loop leaves at the first candidate that no
  row carries, and otherwise counts the attempt. It returns the final \<open>attempts\<close> and the
  last candidate.
\<close>

definition maxAttempts :: nat where
  "maxAttempts = 10"

function tokenNumberLoop :: "token list \<Rightarrow> string \<Rightarrow> nat \<Rightarrow> nat \<Rightarrow> nat \<times> string" where
  "tokenNumberLoop rows prefix todayTokens attempts =
     (if findUnique_tokenNumber rows (formatTokenNumber prefix (todayTokens + attempts + 1)) = None
      then (attempts, formatTokenNumber prefix (todayTokens + attempts + 1))
      else if attempts + 1 < maxAttempts
      then tokenNumberLoop rows prefix todayTokens (attempts + 1)
      else (attempts + 1, formatTokenNumber prefix (todayTokens + attempts + 1)))"
  by pat_completeness auto
termination
  by (relation "measure (\<lambda>(rows, prefix, todayTokens, attempts). maxAttempts - attempts)") auto

declare tokenNumberLoop.simps [simp del]

text \<open>
  The whole call runs at one instant \<open>now\<close>: it is the \<^verbatim>\<open>new Date()\<close> of the day window,
  the \<^verbatim>\<open>CURRENT_TIMESTAMP\<close> default of \<open>createdAt\<close> and the clock of the wait estimate.
  A throw inside the transaction rolls it back, so an error leaves the store as it was.
\<close>

definition generateToken :: "store \<Rightarrow> string \<Rightarrow> int \<Rightarrow> error + (store \<times> tokenWithDetails)" where
  "generateToken s svc now =
     (let prefix = getServicePrefix svc;
          todayTokens = count_where (\<lambda>t. serviceType t = svc \<and> todayStart now \<le> createdAt t
                                           \<and> createdAt t \<le> todayEnd now) (tokens s);
          found = tokenNumberLoop (tokens s) prefix todayTokens 0
      in if fst found \<ge> maxAttempts then Inl UniqueNumberExhausted
         else
           (let pos = int (count_where (\<lambda>t. status t = WAITING \<and> serviceType t = svc) (tokens s)) + 1;
                row = \<lparr>token_id = tokenSeq s + 1,
                       tokenNumber = snd found,
                       serviceType = svc,
                       status = WAITING,
                       queuePosition = Some pos,
                       counterId = None,
                       createdAt = now,
                       calledAt = None,
                       completedAt = None\<rparr>;
                s' = s\<lparr>tokens := tokens s @ [row], tokenSeq := tokenSeq s + 1\<rparr>;
                shown = (if pos = 0 then 1 else pos)
            in Inr (s', \<lparr>d_tokenNumber = snd found,
                         d_serviceType = svc,
                         d_status = WAITING,
                         d_queuePosition = shown,
                         d_estimatedWaitTime = estimateWaitTime s' now shown,
                         d_counter = None,
                         d_createdAt = now,
                         d_calledAt = None,
                         d_completedAt = None\<rparr>)))"

subsection \<open>assignTokenToCounter and completeToken\<close>

text \<open>
  Both are one \<^verbatim>\<open>prisma.token.update\<close> by \<open>tokenNumber\<close>. Neither reads the token's
  status before writing. The update fails when no row has the token number and, for the
  assignment, when the counter id references no counter.
\<close>

definition assignTokenToCounter :: "store \<Rightarrow> string \<Rightarrow> nat \<Rightarrow> int \<Rightarrow> error + (store \<times> token)" where
  "assignTokenToCounter s tn cid now =
     (case findUnique_tokenNumber (tokens s) tn of
        None \<Rightarrow> Inl RecordNotFound
      | Some t \<Rightarrow>
          if findUnique_counter (counters s) cid = None then Inl ForeignKeyViolation
          else Inr (s\<lparr>tokens := update_tokenNumber (tokens s) tn
                                 (\<lambda>u. u\<lparr>status := SERVING, counterId := Some cid, calledAt := Some now\<rparr>)\<rparr>,
                    t\<lparr>status := SERVING, counterId := Some cid, calledAt := Some now\<rparr>))"

definition completeToken :: "store \<Rightarrow> string \<Rightarrow> int \<Rightarrow> error + (store \<times> token)" where
  "completeToken s tn now =
     (case findUnique_tokenNumber (tokens s) tn of
        None \<Rightarrow> Inl RecordNotFound
      | Some t \<Rightarrow>
          Inr (s\<lparr>tokens := update_tokenNumber (tokens s) tn
                            (\<lambda>u. u\<lparr>status := COMPLETED, completedAt := Some now, counterId := None\<rparr>)\<rparr>,
               t\<lparr>status := COMPLETED, completedAt := Some now, counterId := None\<rparr>))"

section \<open>CounterService\<close>

definition servingAt :: "store \<Rightarrow> nat \<Rightarrow> token list" where
  "servingAt s cid = filter (\<lambda>t. counterId t = Some cid \<and> status t = SERVING) (tokens s)"

definition assignCounter :: "store \<Rightarrow> nat \<Rightarrow> string \<Rightarrow> int \<Rightarrow> error + store" where
  "assignCounter s cid tn now =
     (case findUnique_counter (counters s) cid of
        None \<Rightarrow> Inl CounterNotFound
      | Some c \<Rightarrow>
          if counter_status c = INACTIVE then Inl CounterInactive
          else if length (servingAt s cid) > 0 then Inl CounterAlreadyServing
          else (case assignTokenToCounter s tn cid now of
                  Inl e \<Rightarrow> Inl e
                | Inr r \<Rightarrow> Inr (fst r)))"

definition deactivateCounter :: "store \<Rightarrow> nat \<Rightarrow> error + (store \<times> counter)" where
  "deactivateCounter s cid =
     (if count_where (\<lambda>t. counterId t = Some cid \<and> status t = SERVING) (tokens s) > 0
      then Inl CounterBusy
      else (case findUnique_counter (counters s) cid of
              None \<Rightarrow> Inl RecordNotFound
            | Some c \<Rightarrow>
                Inr (s\<lparr>counters := update_counter (counters s) cid (\<lambda>k. k\<lparr>counter_status := INACTIVE\<rparr>)\<rparr>,
                     c\<lparr>counter_status := INACTIVE\<rparr>)))"

section \<open>The route \<^verbatim>\<open>POST /api/tokens\<close>\<close>

text \<open>
  The body's \<open>serviceType\<close> is absent or a string; the empty string is falsy. The
  response is the status code with either the error text or the token. The broadcast
  after a successful generation is left out.
\<close>

definition validServiceTypes :: "string list" where
  "validServiceTypes =
     [''Parcel Drop-off'', ''Banking Services'', ''General Inquiry'', ''Document Verification'']"

record tokenResponse =
  r_tokenNumber :: string
  r_queuePosition :: int
  r_estimatedWaitTime :: int
  r_serviceType :: string

datatype apiResponse = Failure nat string | Success nat tokenResponse

definition postToken :: "store \<Rightarrow> string option \<Rightarrow> int \<Rightarrow> store \<times> apiResponse" where
  "postToken s body now =
     (case body of
        None \<Rightarrow> (s, Failure 400 ''Service type is required'')
      | Some svc \<Rightarrow>
          if svc = [] then (s, Failure 400 ''Service type is required'')
          else if svc \<notin> set validServiceTypes then (s, Failure 400 ''Invalid service type'')
          else (case generateToken s svc now of
                  Inl e \<Rightarrow> (s, Failure 500 ''Failed to generate token'')
                | Inr r \<Rightarrow>
                    (fst r, Success 201 \<lparr>r_tokenNumber = d_tokenNumber (snd r),
                                         r_queuePosition = d_queuePosition (snd r),
                                         r_estimatedWaitTime = d_estimatedWaitTime (snd r),
                                         r_serviceType = d_serviceType (snd r)\<rparr>)))"

section \<open>The route \<^verbatim>\<open>POST /api/tokens/call-next\<close>\<close>

text \<open>
  The body's \<open>counterId\<close> is absent or a number; 0 is falsy. The route takes the next
  waiting token and hands it, with the counter id as received, to
  \<open>assignTokenToCounter\<close>; it does not look at the counter. Any throw is answered with
  500. The broadcast after a successful call is left out.
\<close>

datatype callNextResponse = CallFailure nat string | Called token

definition postCallNext :: "store \<Rightarrow> nat option \<Rightarrow> int \<Rightarrow> store \<times> callNextResponse" where
  "postCallNext s body now =
     (case body of
        None \<Rightarrow> (s, CallFailure 400 ''Counter ID is required'')
      | Some cid \<Rightarrow>
          if cid = 0 then (s, CallFailure 400 ''Counter ID is required'')
          else (case getNextToken s of
                  None \<Rightarrow> (s, CallFailure 404 ''No tokens in queue'')
                | Some t \<Rightarrow>
                    (case assignTokenToCounter s (tokenNumber t) cid now of
                       Inl e \<Rightarrow> (s, CallFailure 500 ''Failed to call next token'')
                     | Inr r \<Rightarrow> (fst r, Called (snd r)))))"

section \<open>Example stores\<close>

definition mkToken ::
  "nat \<Rightarrow> string \<Rightarrow> string \<Rightarrow> TokenStatus \<Rightarrow> nat option \<Rightarrow> int \<Rightarrow> int option \<Rightarrow> int option \<Rightarrow> token" where
  "mkToken i tn svc st c cr ca co =
     \<lparr>token_id = i, tokenNumber = tn, serviceType = svc, status = st, queuePosition = None,
      counterId = c, createdAt = cr, calledAt = ca, completedAt = co\<rparr>"

definition mkCounter :: "nat \<Rightarrow> int \<Rightarrow> CounterStatus \<Rightarrow> counter" where
  "mkCounter i n st =
     \<lparr>counter_id = i, counter_number = n, counter_status = st, counter_createdAt = 0\<rparr>"

text \<open>
  Three waiting tokens, one being served at counter 1 and one completed after 150
  seconds of service; counter 2 is inactive.
\<close>

definition queueStore :: store where
  "queueStore =
     \<lparr>tokens =
        [mkToken 1 ''P-001'' ''Parcel Drop-off'' WAITING None 1000 None None,
         mkToken 2 ''B-001'' ''Banking Services'' WAITING None 2000 None None,
         mkToken 3 ''P-002'' ''Parcel Drop-off'' WAITING None 3000 None None,
         mkToken 4 ''P-003'' ''Parcel Drop-off'' SERVING (Some 1) 500 (Some 4000) None,
         mkToken 5 ''G-001'' ''General Inquiry'' COMPLETED None 600 (Some 5000) (Some 155000)],
      counters = [mkCounter 1 7 ACTIVE, mkCounter 2 8 INACTIVE],
      tokenSeq = 5\<rparr>"

text \<open>
  A token created 25 hours before the instant 91000000 and completed, after ten minutes
  of service, within the last hour before it.
\<close>

definition overnightStore :: store where
  "overnightStore =
     \<lparr>tokens = [mkToken 1 ''P-001'' ''Parcel Drop-off'' COMPLETED None 0 (Some 90000000) (Some 90600000)],
      counters = [mkCounter 1 7 ACTIVE],
      tokenSeq = 1\<rparr>"

text \<open>Two waiting tokens with the same \<open>createdAt\<close>; the engine yields the later row first.\<close>

definition tieStore :: store where
  "tieStore =
     \<lparr>tokens =
        [mkToken 2 ''B-001'' ''Banking Services'' WAITING None 1000 None None,
         mkToken 1 ''P-001'' ''Parcel Drop-off'' WAITING None 1000 None None],
      counters = [],
      tokenSeq = 2\<rparr>"

text \<open>A store with no rows at all, and one with a single active counter and no tokens.\<close>

definition emptyStore :: store where
  "emptyStore = \<lparr>tokens = [], counters = [], tokenSeq = 0\<rparr>"

definition counterStore :: store where
  "counterStore = \<lparr>tokens = [], counters = [mkCounter 1 7 ACTIVE], tokenSeq = 0\<rparr>"

text \<open>A completed token and a waiting one, with counter 1 active and idle.\<close>

definition completedStore :: store where
  "completedStore =
     \<lparr>tokens = [mkToken 1 ''P-001'' ''Parcel Drop-off'' COMPLETED None 100 (Some 200) (Some 300),
                mkToken 2 ''P-002'' ''Parcel Drop-off'' WAITING None 150 None None],
      counters = [mkCounter 1 7 ACTIVE],
      tokenSeq = 2\<rparr>"

text \<open>A token of the first day; the instants 86400000 to 172799999 are the second day.\<close>

definition yesterdayStore :: store where
  "yesterdayStore =
     \<lparr>tokens = [mkToken 1 ''P-001'' ''Parcel Drop-off'' COMPLETED None 100 (Some 200) (Some 300)],
      counters = [mkCounter 1 7 ACTIVE],
      tokenSeq = 1\<rparr>"

text \<open>
  The store \<open>queueStore\<close> after token \<open>P-001\<close> was called to the inactive counter 2 at
  the instant 6000.
\<close>

definition pairedStore :: store where
  "pairedStore =
     \<lparr>tokens =
        [mkToken 1 ''P-001'' ''Parcel Drop-off'' SERVING (Some 2) 1000 (Some 6000) None,
         mkToken 2 ''B-001'' ''Banking Services'' WAITING None 2000 None None,
         mkToken 3 ''P-002'' ''Parcel Drop-off'' WAITING None 3000 None None,
         mkToken 4 ''P-003'' ''Parcel Drop-off'' SERVING (Some 1) 500 (Some 4000) None,
         mkToken 5 ''G-001'' ''General Inquiry'' COMPLETED None 600 (Some 5000) (Some 155000)],
      counters = [mkCounter 1 7 ACTIVE, mkCounter 2 8 INACTIVE],
      tokenSeq = 5\<rparr>"

section \<open>The specification's readings, for comparison with the code\<close>

text \<open>
  The wait estimate as the specification words it: the mean, in minutes, of
  \<open>completedAt - calledAt\<close> over the tokens completed within the trailing 24 hours that
  have both timestamps, 5 when there is none, and at least 2 otherwise.
\<close>

definition claimed_completedTokens :: "store \<Rightarrow> int \<Rightarrow> token list" where
  "claimed_completedTokens s now =
     filter (\<lambda>t. status t = COMPLETED \<and> calledAt t \<noteq> None
                 \<and> (case completedAt t of
                       None \<Rightarrow> False
                     | Some done \<Rightarrow> now - 24 * 3600000 \<le> done \<and> done \<le> now)) (tokens s)"

definition serviceMinutes :: "token \<Rightarrow> rat" where
  "serviceMinutes t = of_int (the (completedAt t) - the (calledAt t)) / 60000"

definition claimed_avgServiceMinutes :: "store \<Rightarrow> int \<Rightarrow> rat" where
  "claimed_avgServiceMinutes s now =
     (let sel = claimed_completedTokens s now in
      if sel = [] then 5
      else max 2 (sum_list (map serviceMinutes sel) / of_nat (length sel)))"

definition claimed_estimate :: "store \<Rightarrow> int \<Rightarrow> int \<Rightarrow> rat" where
  "claimed_estimate s now p = max 0 ((of_int p - 1) * claimed_avgServiceMinutes s now)"

text \<open>
  The next pending token as the specification words it: the waiting token with the
  earliest \<open>createdAt\<close>, ties decided by the smaller row id.
\<close>

definition claimed_getNextPending :: "store \<Rightarrow> token option" where
  "claimed_getNextPending s =
     (case filter (\<lambda>t. status t = WAITING) (tokens s) of
        [] \<Rightarrow> None
      | t # ts \<Rightarrow>
          Some (foldl (\<lambda>best u. if createdAt u < createdAt best
                                   \<or> (createdAt u = createdAt best \<and> token_id u < token_id best)
                                then u else best) t ts))"

section \<open>Sequences of operations and invariants\<close>

text \<open>The display code a call of \<open>generateToken\<close> hands out, if it hands out one.\<close>

definition issuedCode :: "error + (store \<times> tokenWithDetails) \<Rightarrow> string option" where
  "issuedCode r = (case r of Inl e \<Rightarrow> None | Inr p \<Rightarrow> Some (d_tokenNumber (snd p)))"

text \<open>
  The operations that create or change tokens, run one after the other; an operation
  that throws leaves the store as it was.
\<close>

datatype operation =
    GenerateToken string int
  | AssignTokenToCounter string nat int
  | AssignCounter nat string int
  | CompleteToken string int

definition exec :: "store \<Rightarrow> operation \<Rightarrow> store" where
  "exec s op =
     (case op of
        GenerateToken svc now \<Rightarrow> (case generateToken s svc now of Inl e \<Rightarrow> s | Inr r \<Rightarrow> fst r)
      | AssignTokenToCounter tn cid now \<Rightarrow>
          (case assignTokenToCounter s tn cid now of Inl e \<Rightarrow> s | Inr r \<Rightarrow> fst r)
      | AssignCounter cid tn now \<Rightarrow> (case assignCounter s cid tn now of Inl e \<Rightarrow> s | Inr s' \<Rightarrow> s')
      | CompleteToken tn now \<Rightarrow> (case completeToken s tn now of Inl e \<Rightarrow> s | Inr r \<Rightarrow> fst r))"

definition run :: "store \<Rightarrow> operation list \<Rightarrow> store" where
  "run s ops = foldl exec s ops"

definition dayRun :: "operation list" where
  "dayRun =
     [GenerateToken ''Parcel Drop-off'' 100,
      GenerateToken ''Banking Services'' 200,
      AssignCounter 1 ''P-001'' 300,
      CompleteToken ''P-001'' 400,
      AssignTokenToCounter ''B-001'' 1 500]"

text \<open>The two invariants of a token row.\<close>

definition tokenInv :: "token \<Rightarrow> bool" where
  "tokenInv t = ((counterId t \<noteq> None \<longrightarrow> status t = SERVING)
                 \<and> (status t = COMPLETED \<longrightarrow> counterId t = None))"

text \<open>The invariant of the counters: an inactive counter serves no token.\<close>

definition counterInv :: "store \<Rightarrow> bool" where
  "counterInv s =
     (\<forall>c \<in> set (counters s). counter_status c = INACTIVE \<longrightarrow> servingAt s (counter_id c) = [])"

section \<open>Reading sequence numbers and issuing several tokens\<close>

text \<open>
  The sequence number of a display code as the property test of the repository reads
  it, \<^verbatim>\<open>parseInt(tokenNumber.split('-')[1])\<close>, for codes whose part after the dash
  consists of digits.
\<close>

definition digitValue :: "char \<Rightarrow> nat" where
  "digitValue c = of_char c - 48"

definition parseInt_digits :: "string \<Rightarrow> nat" where
  "parseInt_digits s = foldl (\<lambda>acc c. 10 * acc + digitValue c) 0 s"

definition sequenceNumber :: "string \<Rightarrow> nat" where
  "sequenceNumber code = parseInt_digits (drop 1 (dropWhile (\<lambda>c. c \<noteq> CHR ''-'') code))"

text \<open>
  One \<open>generateToken\<close> call per instant of the list, each on the store the previous one
  left; the codes are collected in call order and the first error ends the run.
\<close>

fun generateTokens :: "store \<Rightarrow> string \<Rightarrow> int list \<Rightarrow> error + (store \<times> string list)" where
  "generateTokens s svc [] = Inr (s, [])"
| "generateTokens s svc (now # nows) =
     (case generateToken s svc now of
        Inl e \<Rightarrow> Inl e
      | Inr r \<Rightarrow>
          (case generateTokens (fst r) svc nows of
             Inl e \<Rightarrow> Inl e
           | Inr r' \<Rightarrow> Inr (fst r', d_tokenNumber (snd r) # snd r')))"

section \<open>Lookups and counts\<close>

lemma count_where_card:
  "count_where P rows = card {i. i < length rows \<and> P (rows ! i)}"
  by (simp add: count_where_def length_filter_conv_card)

lemma findUnique_tokenNumber_None:
  "findUnique_tokenNumber rows tn = None \<longleftrightarrow> (\<forall>t \<in> set rows. tokenNumber t \<noteq> tn)"
  by (auto simp: findUnique_tokenNumber_def find_None_iff)

lemma findUnique_tokenNumber_Some:
  "findUnique_tokenNumber rows tn = Some t \<Longrightarrow> t \<in> set rows \<and> tokenNumber t = tn"
  by (auto simp: findUnique_tokenNumber_def find_Some_iff)

section \<open>Queue position\<close>

lemma calculateQueuePosition_card:
  "calculateQueuePosition s tn =
     (case findUnique_tokenNumber (tokens s) tn of
        None \<Rightarrow> 0
      | Some t \<Rightarrow>
          if status t = WAITING
          then 1 + int (card {i. i < length (tokens s) \<and> status (tokens s ! i) = WAITING
                                  \<and> serviceType (tokens s ! i) = serviceType t
                                  \<and> createdAt (tokens s ! i) < createdAt t})
          else 0)"
  by (simp add: calculateQueuePosition_def count_where_card split: option.split)

lemma calculateQueuePosition_live:
  "calculateQueuePosition (s\<lparr>tokens := map (\<lambda>t. t\<lparr>queuePosition := q t\<rparr>) (tokens s)\<rparr>) tn
     = calculateQueuePosition s tn"
proof -
  have f: "find (\<lambda>t. tokenNumber t = tn) (map (\<lambda>t. t\<lparr>queuePosition := q t\<rparr>) rows)
             = map_option (\<lambda>t. t\<lparr>queuePosition := q t\<rparr>) (find (\<lambda>t. tokenNumber t = tn) rows)" for rows
    by (induction rows) auto
  show ?thesis
    by (simp add: calculateQueuePosition_def findUnique_tokenNumber_def count_where_def f comp_def
             split: option.split)
qed

text \<open>
  C5. \<open>calculateQueuePosition\<close> is 0 when no row carries the token number and when the
  row found is not \<open>WAITING\<close>; otherwise it is one plus the number of rows that are
  \<open>WAITING\<close>, have the same service type and a strictly earlier \<open>createdAt\<close>. It reads
  the rows as they are at the call: the \<open>queuePosition\<close> column stored at creation has
  no influence on it.
\<close>

theorem calculateQueuePosition_spec:
  "calculateQueuePosition s tn =
     (case findUnique_tokenNumber (tokens s) tn of
        None \<Rightarrow> 0
      | Some t \<Rightarrow>
          if status t = WAITING
          then 1 + int (card {i. i < length (tokens s) \<and> status (tokens s ! i) = WAITING
                                  \<and> serviceType (tokens s ! i) = serviceType t
                                  \<and> createdAt (tokens s ! i) < createdAt t})
          else 0)
   \<and> calculateQueuePosition (s\<lparr>tokens := map (\<lambda>t. t\<lparr>queuePosition := q t\<rparr>) (tokens s)\<rparr>) tn
       = calculateQueuePosition s tn"
  by (rule conjI [OF calculateQueuePosition_card calculateQueuePosition_live])

theorem calculateQueuePosition_witness:
  "1 + int (card {i. i < length (tokens queueStore) \<and> status (tokens queueStore ! i) = WAITING
                     \<and> serviceType (tokens queueStore ! i) = ''Parcel Drop-off''
                     \<and> createdAt (tokens queueStore ! i) < 3000}) = 2"
proof -
  have t: "findUnique_tokenNumber (tokens queueStore) ''P-002''
             = Some (mkToken 3 ''P-002'' ''Parcel Drop-off'' WAITING None 3000 None None)"
    by (simp add: queueStore_def mkToken_def findUnique_tokenNumber_def)
  have v: "calculateQueuePosition queueStore ''P-002'' = 2"
    by (simp add: calculateQueuePosition_def count_where_def queueStore_def mkToken_def
                  findUnique_tokenNumber_def)
  show ?thesis
    using calculateQueuePosition_spec [of queueStore "''P-002''", THEN conjunct1] unfolding t v
    by (simp add: mkToken_def)
qed

section \<open>Token details\<close>

text \<open>
  C10. For a token that exists, \<open>getTokenDetails\<close> returns its details; the position and
  the estimated wait are both 0 unless the token is \<open>WAITING\<close>, and for a \<open>WAITING\<close>
  token they are the values \<open>calculateQueuePosition\<close> and \<open>estimateWaitTime\<close> compute
  at the call.
\<close>

theorem getTokenDetails_position:
  assumes "findUnique_tokenNumber (tokens s) tn = Some t"
  shows "\<exists>d. getTokenDetails s now tn = Some d
           \<and> d_tokenNumber d = tokenNumber t \<and> d_status d = status t
           \<and> d_queuePosition d = (if status t = WAITING then calculateQueuePosition s tn else 0)
           \<and> d_estimatedWaitTime d =
               (if status t = WAITING then estimateWaitTime s now (calculateQueuePosition s tn) else 0)"
  using assms by (simp add: getTokenDetails_def Let_def)

theorem getTokenDetails_position_witness:
  "\<exists>d. getTokenDetails queueStore 200000 ''P-003'' = Some d
       \<and> d_tokenNumber d = ''P-003'' \<and> d_status d = SERVING
       \<and> d_queuePosition d = 0 \<and> d_estimatedWaitTime d = 0"
proof -
  have t: "findUnique_tokenNumber (tokens queueStore) ''P-003''
             = Some (mkToken 4 ''P-003'' ''Parcel Drop-off'' SERVING (Some 1) 500 (Some 4000) None)"
    by (simp add: queueStore_def mkToken_def findUnique_tokenNumber_def)
  show ?thesis
    using getTokenDetails_position [OF t, of 200000] by (simp add: mkToken_def)
qed

section \<open>Wait estimate\<close>

lemma foldl_addServiceTime:
  "\<forall>t \<in> set sel. calledAt t \<noteq> None \<and> completedAt t \<noteq> None \<Longrightarrow>
   foldl addServiceTime acc sel = acc + (\<Sum>t\<leftarrow>sel. the (completedAt t) - the (calledAt t))"
  by (induction sel arbitrary: acc) (auto simp: addServiceTime_def)

lemma completedTokens_set:
  "set (completedTokens s now) =
     {t \<in> set (tokens s). status t = COMPLETED \<and> calledAt t \<noteq> None \<and> completedAt t \<noteq> None
                            \<and> now - 86400000 \<le> createdAt t}"
  by (auto simp: completedTokens_def)

lemma averageServiceTime_eq:
  "averageServiceTime s now =
     (if completedTokens s now = [] then 5
      else max 2 (round ((of_int (\<Sum>t\<leftarrow>completedTokens s now. the (completedAt t) - the (calledAt t)) :: rat)
                          / of_nat (length (completedTokens s now)) / 60000)))"
proof -
  have "\<forall>t \<in> set (completedTokens s now). calledAt t \<noteq> None \<and> completedAt t \<noteq> None"
    by (simp add: completedTokens_set)
  from foldl_addServiceTime [OF this, of 0] show ?thesis
    by (simp add: averageServiceTime_def Let_def max.commute)
qed

text \<open>
  C6, as the claim states it, fails twice. A single service of 150 seconds gives the mean
  2.5 minutes and so the claimed estimate 5 for position 3, where the code rounds the
  mean to 3 minutes and answers 6. A token created 25 hours ago and completed within the
  last hour after ten minutes of service counts for the claim (estimate 20), while the
  code selects by \<open>createdAt\<close>, finds nothing and falls back to 5 minutes (estimate 10).
\<close>

theorem estimateWaitTime_counterexample:
  "estimateWaitTime queueStore 200000 3 = 6 \<and> claimed_estimate queueStore 200000 3 = 5
   \<and> estimateWaitTime overnightStore 91000000 3 = 10
   \<and> claimed_estimate overnightStore 91000000 3 = 20"
  by (simp add: estimateWaitTime_def averageServiceTime_def completedTokens_def addServiceTime_def
      claimed_estimate_def claimed_avgServiceMinutes_def claimed_completedTokens_def serviceMinutes_def
      queueStore_def overnightStore_def mkToken_def Let_def round_def)

text \<open>
  C6, amended. The estimate is \<open>max 0 ((p - 1) * avg)\<close>, where \<open>avg\<close> is taken over the
  \<open>COMPLETED\<close> tokens that have both timestamps and were created within the trailing 24
  hours: it is 5 when there is none, and otherwise the mean of \<open>completedAt - calledAt\<close>
  in minutes, rounded to the nearest whole minute (halves up) and raised to 2 if less.
  The estimate is never negative and is 0 at position 1.
\<close>

theorem estimateWaitTime_amended:
  "estimateWaitTime s now p =
     max 0 ((p - 1) *
       (if completedTokens s now = [] then 5
        else max 2 (round ((of_int (\<Sum>t\<leftarrow>completedTokens s now. the (completedAt t) - the (calledAt t)) :: rat)
                            / of_nat (length (completedTokens s now)) / 60000))))
   \<and> set (completedTokens s now) =
       {t \<in> set (tokens s). status t = COMPLETED \<and> calledAt t \<noteq> None \<and> completedAt t \<noteq> None
                              \<and> now - 86400000 \<le> createdAt t}
   \<and> 0 \<le> estimateWaitTime s now p
   \<and> estimateWaitTime s now 1 = 0"
  by (simp add: estimateWaitTime_def averageServiceTime_eq [symmetric] completedTokens_set)

theorem estimateWaitTime_amended_witness:
  "estimateWaitTime queueStore 200000 3 = 6 \<and> estimateWaitTime queueStore 200000 1 = 0"
proof -
  have sel: "completedTokens queueStore 200000
               = [mkToken 5 ''G-001'' ''General Inquiry'' COMPLETED None 600 (Some 5000) (Some 155000)]"
    by (simp add: completedTokens_def queueStore_def mkToken_def)
  have "estimateWaitTime queueStore 200000 3 = 6"
    using estimateWaitTime_amended [of queueStore 200000 3, THEN conjunct1] unfolding sel
    by (simp add: mkToken_def round_def)
  moreover have "estimateWaitTime queueStore 200000 1 = 0"
    using estimateWaitTime_amended [of queueStore 200000 1] by blast
  ultimately show ?thesis by simp
qed

section \<open>Next pending token\<close>

lemma foldl_earliest:
  "foldl (\<lambda>best u. if createdAt u < createdAt best then u else best) t ts \<in> set (t # ts)
   \<and> (\<forall>u \<in> set (t # ts).
         createdAt (foldl (\<lambda>best u. if createdAt u < createdAt best then u else best) t ts)
           \<le> createdAt u)"
proof (induction ts arbitrary: t)
  case Nil
  show ?case by simp
next
  case (Cons a ts)
  show ?case
  proof (cases "createdAt a < createdAt t")
    case True
    with Cons.IH [of a] show ?thesis by force
  next
    case False
    with Cons.IH [of t] show ?thesis by force
  qed
qed

lemma findFirst_orderBy_createdAt_None:
  "findFirst_orderBy_createdAt P rows = None \<longleftrightarrow> (\<forall>t \<in> set rows. \<not> P t)"
proof (cases "filter P rows")
  case Nil
  then show ?thesis
    by (simp add: findFirst_orderBy_createdAt_def filter_empty_conv)
next
  case (Cons x xs)
  then have "x \<in> set (filter P rows)" by simp
  then have "\<exists>t \<in> set rows. P t" by auto
  with Cons show ?thesis
    by (simp add: findFirst_orderBy_createdAt_def)
qed

lemma findFirst_orderBy_createdAt_Some:
  assumes "findFirst_orderBy_createdAt P rows = Some t"
  shows "t \<in> set rows \<and> P t \<and> (\<forall>u \<in> set rows. P u \<longrightarrow> createdAt t \<le> createdAt u)"
proof -
  from assms obtain x xs where f: "filter P rows = x # xs"
    and t: "t = foldl (\<lambda>best u. if createdAt u < createdAt best then u else best) x xs"
    by (auto simp: findFirst_orderBy_createdAt_def split: list.splits)
  from foldl_earliest [of x xs] t have "t \<in> set (filter P rows)"
    and "\<forall>u \<in> set (filter P rows). createdAt t \<le> createdAt u"
    by (simp_all add: f)
  then show ?thesis by auto
qed

text \<open>
  C4, as the claim states it, fails on a tie. Rows 2 and 1 are both waiting with
  \<open>createdAt = 1000\<close> and the engine yields row 2 first: \<open>getNextToken\<close>, which orders by
  \<open>createdAt\<close> only, returns row 2, where the tie-break by row id returns row 1.
\<close>

theorem getNextToken_tie_counterexample:
  "map_option token_id (getNextToken tieStore) = Some 2
   \<and> map_option token_id (claimed_getNextPending tieStore) = Some 1"
  by (simp add: getNextToken_def findFirst_orderBy_createdAt_def claimed_getNextPending_def
                tieStore_def mkToken_def)

text \<open>
  C4, amended. Whenever a waiting token exists, \<open>getNextToken\<close> returns a waiting token
  of the store whose \<open>createdAt\<close> is earliest among all waiting tokens, whatever their
  service type; when no token is waiting it returns nothing. Which of several waiting
  tokens with the same earliest \<open>createdAt\<close> it returns is left to the order in which
  the store yields the rows.
\<close>

theorem getNextToken_earliest:
  "((\<exists>t \<in> set (tokens s). status t = WAITING) \<longrightarrow>
      (\<exists>t. getNextToken s = Some t \<and> t \<in> set (tokens s) \<and> status t = WAITING
           \<and> (\<forall>u \<in> set (tokens s). status u = WAITING \<longrightarrow> createdAt t \<le> createdAt u)))
   \<and> ((\<forall>t \<in> set (tokens s). status t \<noteq> WAITING) \<longrightarrow> getNextToken s = None)"
proof (intro conjI impI)
  assume w: "\<exists>t \<in> set (tokens s). status t = WAITING"
  then have "getNextToken s \<noteq> None"
    by (simp add: getNextToken_def findFirst_orderBy_createdAt_None)
  then obtain t where t: "getNextToken s = Some t" by auto
  with findFirst_orderBy_createdAt_Some [of "\<lambda>t. status t = WAITING" "tokens s" t]
  show "\<exists>t. getNextToken s = Some t \<and> t \<in> set (tokens s) \<and> status t = WAITING
           \<and> (\<forall>u \<in> set (tokens s). status u = WAITING \<longrightarrow> createdAt t \<le> createdAt u)"
    by (simp add: getNextToken_def)
next
  assume "\<forall>t \<in> set (tokens s). status t \<noteq> WAITING"
  then show "getNextToken s = None"
    by (simp add: getNextToken_def findFirst_orderBy_createdAt_None)
qed

theorem getNextToken_earliest_witness:
  "(\<exists>t. getNextToken queueStore = Some t \<and> t \<in> set (tokens queueStore) \<and> status t = WAITING
       \<and> (\<forall>u \<in> set (tokens queueStore). status u = WAITING \<longrightarrow> createdAt t \<le> createdAt u))
   \<and> getNextToken overnightStore = None"
proof -
  have w: "\<exists>t \<in> set (tokens queueStore). status t = WAITING"
    by (simp add: queueStore_def mkToken_def)
  have n: "\<forall>t \<in> set (tokens overnightStore). status t \<noteq> WAITING"
    by (simp add: overnightStore_def mkToken_def)
  from w n getNextToken_earliest [of queueStore] getNextToken_earliest [of overnightStore]
  show ?thesis by blast
qed

section \<open>Deactivating a counter\<close>

lemma findUnique_counter_Some:
  "findUnique_counter rows cid = Some c \<Longrightarrow> c \<in> set rows \<and> counter_id c = cid"
  by (auto simp: findUnique_counter_def find_Some_iff)

lemma findUnique_counter_deactivated:
  "findUnique_counter rows cid = Some c \<Longrightarrow>
   findUnique_counter (update_counter rows cid (\<lambda>k. k\<lparr>counter_status := INACTIVE\<rparr>)) cid
     = Some (c\<lparr>counter_status := INACTIVE\<rparr>)"
  by (induction rows) (auto simp: findUnique_counter_def update_counter_def)

lemma servingAt_counters_update:
  "servingAt (s\<lparr>counters := cs\<rparr>) cid = servingAt s cid"
  by (simp add: servingAt_def)

lemma counterInv_deactivate:
  assumes "counterInv s" and "servingAt s cid = []"
  shows "counterInv (s\<lparr>counters := update_counter (counters s) cid (\<lambda>k. k\<lparr>counter_status := INACTIVE\<rparr>)\<rparr>)"
  using assms by (auto simp: counterInv_def update_counter_def servingAt_counters_update)

text \<open>
  What \<open>deactivateCounter\<close> does by itself. While a \<open>SERVING\<close> token references the
  counter it throws \<open>CounterBusy\<close> and nothing is written. Otherwise it throws Prisma's
  not-found error for an unknown id, and for an existing counter it sets the status to
  \<open>INACTIVE\<close> and leaves the tokens as they are, so that from a store in which no
  inactive counter serves a token it leads to such a store again.
\<close>

lemma deactivateCounter_behaviour:
  "(servingAt s cid \<noteq> [] \<longrightarrow> deactivateCounter s cid = Inl CounterBusy)
   \<and> (servingAt s cid = [] \<longrightarrow> findUnique_counter (counters s) cid = None \<longrightarrow>
        deactivateCounter s cid = Inl RecordNotFound)
   \<and> (servingAt s cid = [] \<longrightarrow> findUnique_counter (counters s) cid = Some c \<longrightarrow>
        (\<exists>s'. deactivateCounter s cid = Inr (s', c\<lparr>counter_status := INACTIVE\<rparr>)
              \<and> tokens s' = tokens s
              \<and> findUnique_counter (counters s') cid = Some (c\<lparr>counter_status := INACTIVE\<rparr>)
              \<and> servingAt s' cid = []
              \<and> (counterInv s \<longrightarrow> counterInv s')))"
proof (intro conjI impI)
  assume "servingAt s cid \<noteq> []"
  then show "deactivateCounter s cid = Inl CounterBusy"
    by (simp add: deactivateCounter_def count_where_def servingAt_def)
next
  assume "servingAt s cid = []" and "findUnique_counter (counters s) cid = None"
  then show "deactivateCounter s cid = Inl RecordNotFound"
    by (simp add: deactivateCounter_def count_where_def servingAt_def)
next
  assume idle: "servingAt s cid = []" and c: "findUnique_counter (counters s) cid = Some c"
  let ?s' = "s\<lparr>counters := update_counter (counters s) cid (\<lambda>k. k\<lparr>counter_status := INACTIVE\<rparr>)\<rparr>"
  from idle c have "deactivateCounter s cid = Inr (?s', c\<lparr>counter_status := INACTIVE\<rparr>)"
    by (simp add: deactivateCounter_def count_where_def servingAt_def)
  moreover have "tokens ?s' = tokens s" by simp
  moreover from c have "findUnique_counter (counters ?s') cid = Some (c\<lparr>counter_status := INACTIVE\<rparr>)"
    by (simp add: findUnique_counter_deactivated)
  moreover from idle have "servingAt ?s' cid = []"
    by (simp add: servingAt_counters_update)
  moreover from idle have "counterInv s \<longrightarrow> counterInv ?s'"
    by (simp add: counterInv_deactivate)
  ultimately show "\<exists>s'. deactivateCounter s cid = Inr (s', c\<lparr>counter_status := INACTIVE\<rparr>)
              \<and> tokens s' = tokens s
              \<and> findUnique_counter (counters s') cid = Some (c\<lparr>counter_status := INACTIVE\<rparr>)
              \<and> servingAt s' cid = []
              \<and> (counterInv s \<longrightarrow> counterInv s')"
    by blast
qed

text \<open>
  C8, evaluated. On \<open>queueStore\<close>, where counter 2 is inactive, the route
  \<^verbatim>\<open>POST /call-next\<close> with counter id 2 calls the waiting token \<open>P-001\<close> to that counter:
  an inactive counter is paired with a \<open>SERVING\<close> token. On the store so reached
  \<open>deactivateCounter\<close> throws \<open>CounterBusy\<close> for counter 2, whose status is and stays
  \<open>INACTIVE\<close>, not \<open>ACTIVE\<close>. The sibling paths \<open>assignCounter\<close> and
  \<^verbatim>\<open>tryAssignWaitingToken\<close> refuse an inactive counter; this route does not check it.
\<close>

theorem callNext_inactive_counter:
  "map_option tokenNumber (getNextToken queueStore) = Some ''P-001''
   \<and> fst (postCallNext queueStore (Some 2) 6000) = pairedStore
   \<and> map_option counter_status (findUnique_counter (counters pairedStore) 2) = Some INACTIVE
   \<and> map tokenNumber (servingAt pairedStore 2) = [''P-001'']
   \<and> deactivateCounter pairedStore 2 = Inl CounterBusy
   \<and> assignCounter queueStore 2 ''P-001'' 6000 = Inl CounterInactive"
  by (simp add: postCallNext_def getNextToken_def findFirst_orderBy_createdAt_def
       assignTokenToCounter_def assignCounter_def deactivateCounter_def count_where_def
       findUnique_counter_def findUnique_tokenNumber_def update_tokenNumber_def servingAt_def
       queueStore_def pairedStore_def mkToken_def mkCounter_def)

section \<open>Unknown service types\<close>

lemma map_of_prefixMap_None: "svc \<notin> set validServiceTypes \<Longrightarrow> map_of prefixMap svc = None"
  by (simp add: validServiceTypes_def prefixMap_def)

lemma tokenNumberLoop_format:
  "\<exists>k. snd (tokenNumberLoop rows prefix todayTokens attempts) = formatTokenNumber prefix k"
proof (induction rows prefix todayTokens attempts rule: tokenNumberLoop.induct)
  case (1 rows prefix todayTokens attempts)
  show ?case
  proof (cases "findUnique_tokenNumber rows (formatTokenNumber prefix (todayTokens + attempts + 1)) = None")
    case True
    then show ?thesis
      by (subst tokenNumberLoop.simps) auto
  next
    case f: False
    show ?thesis
    proof (cases "attempts + 1 < maxAttempts")
      case True
      with f "1.IH" show ?thesis
        by (subst tokenNumberLoop.simps) auto
    next
      case False
      with f show ?thesis
        by (subst tokenNumberLoop.simps) auto
    qed
  qed
qed

text \<open>
  C9, as the claim states it, fails in its second half: called with a service type
  outside the enumeration, \<open>generateToken\<close> does hand out a code, built on the default
  prefix \<open>G\<close>.
\<close>

theorem generateToken_fallback_counterexample:
  "''Pension'' \<notin> set validServiceTypes
   \<and> issuedCode (generateToken emptyStore ''Pension'' 0) = Some ''G-001''"
  by code_simp

text \<open>
  C9, amended. For a service type outside the enumeration the route answers 400 and
  leaves the store as it was, so no code is generated for the request. The generator
  itself does not reject such a service type: unless it is the name of a member
  inherited from \<^verbatim>\<open>Object.prototype\<close>, \<open>getServicePrefix\<close> gives it the prefix \<open>G\<close>,
  and \<open>generateToken\<close> either exhausts its attempts or hands out a code formatted on
  that prefix.
\<close>

theorem unknown_serviceType:
  assumes "svc \<notin> set validServiceTypes"
  shows "(\<exists>msg. postToken s (Some svc) now = (s, Failure 400 msg))
         \<and> (svc \<notin> set objectPrototypeMembers \<longrightarrow>
              getServicePrefix svc = ''G''
              \<and> (generateToken s svc now = Inl UniqueNumberExhausted
                  \<or> (\<exists>s' d k. generateToken s svc now = Inr (s', d)
                               \<and> d_tokenNumber d = formatTokenNumber ''G'' k)))"
proof (intro conjI impI)
  from assms show "\<exists>msg. postToken s (Some svc) now = (s, Failure 400 msg)"
    by (simp add: postToken_def)
next
  assume "svc \<notin> set objectPrototypeMembers"
  with assms show "getServicePrefix svc = ''G''"
    by (simp add: getServicePrefix_def map_of_prefixMap_None)
next
  assume "svc \<notin> set objectPrototypeMembers"
  with assms have g: "getServicePrefix svc = ''G''"
    by (simp add: getServicePrefix_def map_of_prefixMap_None)
  obtain k where "snd (tokenNumberLoop (tokens s) ''G''
        (count_where (\<lambda>t. serviceType t = svc \<and> todayStart now \<le> createdAt t
                           \<and> createdAt t \<le> todayEnd now) (tokens s)) 0)
      = formatTokenNumber ''G'' k"
    using tokenNumberLoop_format by blast
  then show "generateToken s svc now = Inl UniqueNumberExhausted
            \<or> (\<exists>s' d k. generateToken s svc now = Inr (s', d)
                         \<and> d_tokenNumber d = formatTokenNumber ''G'' k)"
    by (auto simp: generateToken_def g Let_def)
qed

theorem unknown_serviceType_witness:
  "(\<exists>msg. postToken emptyStore (Some ''Pension'') 0 = (emptyStore, Failure 400 msg))
   \<and> getServicePrefix ''Pension'' = ''G''
   \<and> (generateToken emptyStore ''Pension'' 0 = Inl UniqueNumberExhausted
       \<or> (\<exists>s' d k. generateToken emptyStore ''Pension'' 0 = Inr (s', d)
                    \<and> d_tokenNumber d = formatTokenNumber ''G'' k))"
proof -
  have a: "''Pension'' \<notin> set validServiceTypes"
    by (simp add: validServiceTypes_def)
  have b: "''Pension'' \<notin> set objectPrototypeMembers"
    by (simp add: objectPrototypeMembers_def)
  from unknown_serviceType [OF a, of emptyStore 0] b show ?thesis by blast
qed

text \<open>
  A service type that names an inherited member: the lookup finds the constructor
  function, and the code is formatted on its printed form.
\<close>

lemma generateToken_inherited_member:
  "''constructor'' \<notin> set validServiceTypes
   \<and> issuedCode (generateToken emptyStore ''constructor'' 0)
       = Some ''function Object() { [native code] }-001''"
  by code_simp

section \<open>Transitions without a check of the token's status\<close>

text \<open>
  C1, evaluated. Token \<open>P-001\<close> is \<open>COMPLETED\<close> and counter 1 is active and idle:
  \<open>assignCounter\<close> checks the counter only and succeeds, and the completed token is
  \<open>SERVING\<close> at counter 1 again with a new \<open>calledAt\<close>.
\<close>

theorem assignCounter_completed_token:
  "assignCounter completedStore 1 ''P-001'' 400 =
     Inr (completedStore\<lparr>tokens :=
            [mkToken 1 ''P-001'' ''Parcel Drop-off'' SERVING (Some 1) 100 (Some 400) (Some 300),
             mkToken 2 ''P-002'' ''Parcel Drop-off'' WAITING None 150 None None]\<rparr>)"
  by (simp add: assignCounter_def assignTokenToCounter_def completedStore_def mkToken_def mkCounter_def
       findUnique_counter_def findUnique_tokenNumber_def servingAt_def update_tokenNumber_def)

text \<open>
  C2, evaluated. \<open>completeToken\<close> on the already \<open>COMPLETED\<close> token \<open>P-001\<close> succeeds and
  overwrites its \<open>completedAt\<close>; on the \<open>WAITING\<close> token \<open>P-002\<close> it succeeds as well and
  completes a token that was never served.
\<close>

theorem completeToken_not_serving:
  "map_sum id fst (completeToken completedStore ''P-001'' 500) =
     Inr (completedStore\<lparr>tokens :=
            [mkToken 1 ''P-001'' ''Parcel Drop-off'' COMPLETED None 100 (Some 200) (Some 500),
             mkToken 2 ''P-002'' ''Parcel Drop-off'' WAITING None 150 None None]\<rparr>)
   \<and> map_sum id fst (completeToken completedStore ''P-002'' 500) =
     Inr (completedStore\<lparr>tokens :=
            [mkToken 1 ''P-001'' ''Parcel Drop-off'' COMPLETED None 100 (Some 200) (Some 300),
             mkToken 2 ''P-002'' ''Parcel Drop-off'' COMPLETED None 150 None (Some 500)]\<rparr>)"
  by (simp add: completeToken_def completedStore_def mkToken_def
       findUnique_tokenNumber_def update_tokenNumber_def)

section \<open>Invariants of the token rows\<close>

lemma generateToken_inv:
  assumes "generateToken s svc now = Inr r" and "\<forall>t \<in> set (tokens s). tokenInv t"
  shows "\<forall>t \<in> set (tokens (fst r)). tokenInv t"
  using assms by (auto simp: generateToken_def Let_def tokenInv_def split: if_splits)

lemma assignTokenToCounter_inv:
  assumes "assignTokenToCounter s tn cid now = Inr r" and "\<forall>t \<in> set (tokens s). tokenInv t"
  shows "\<forall>t \<in> set (tokens (fst r)). tokenInv t"
  using assms
  by (auto simp: assignTokenToCounter_def update_tokenNumber_def tokenInv_def
           split: option.splits if_splits)

lemma assignCounter_inv:
  assumes "assignCounter s cid tn now = Inr s'" and "\<forall>t \<in> set (tokens s). tokenInv t"
  shows "\<forall>t \<in> set (tokens s'). tokenInv t"
proof -
  from assms(1) obtain r where "assignTokenToCounter s tn cid now = Inr r" and "s' = fst r"
    by (auto simp: assignCounter_def split: option.splits if_splits sum.splits)
  with assignTokenToCounter_inv [OF _ assms(2)] show ?thesis by blast
qed

lemma completeToken_inv:
  assumes "completeToken s tn now = Inr r" and "\<forall>t \<in> set (tokens s). tokenInv t"
  shows "\<forall>t \<in> set (tokens (fst r)). tokenInv t"
  using assms
  by (auto simp: completeToken_def update_tokenNumber_def tokenInv_def split: option.splits)

lemma exec_inv:
  assumes "\<forall>t \<in> set (tokens s). tokenInv t"
  shows "\<forall>t \<in> set (tokens (exec s op)). tokenInv t"
proof (cases op)
  case (GenerateToken svc now)
  with assms generateToken_inv [of s svc now] show ?thesis
    by (simp add: exec_def split: sum.splits)
next
  case (AssignTokenToCounter tn cid now)
  with assms assignTokenToCounter_inv [of s tn cid now] show ?thesis
    by (simp add: exec_def split: sum.splits)
next
  case (AssignCounter cid tn now)
  with assms assignCounter_inv [of s cid tn now] show ?thesis
    by (simp add: exec_def split: sum.splits)
next
  case (CompleteToken tn now)
  with assms completeToken_inv [of s tn now] show ?thesis
    by (simp add: exec_def split: sum.splits)
qed

lemma run_dayRun:
  "map (\<lambda>t. (tokenNumber t, status t, counterId t)) (tokens (run counterStore dayRun))
     = [(''P-001'', COMPLETED, None), (''B-001'', SERVING, Some 1)]"
  by code_simp

text \<open>
  C7. Starting from a store whose tokens satisfy both invariants, in particular from one
  without tokens, every sequence of \<open>generateToken\<close>, \<open>assignTokenToCounter\<close>,
  \<open>assignCounter\<close> and \<open>completeToken\<close> calls, failed ones included, leads to a store
  in which every token with a counter is \<open>SERVING\<close> and no \<open>COMPLETED\<close> token has a
  counter.
\<close>

theorem core_operations_invariant:
  assumes "\<forall>t \<in> set (tokens s). tokenInv t"
  shows "\<forall>t \<in> set (tokens (run s ops)).
           (counterId t \<noteq> None \<longrightarrow> status t = SERVING)
           \<and> (status t = COMPLETED \<longrightarrow> counterId t = None)"
proof -
  from assms have "\<forall>t \<in> set (tokens (foldl exec s ops)). tokenInv t"
  proof (induction ops arbitrary: s)
    case Nil
    then show ?case by simp
  next
    case (Cons op ops)
    from Cons.prems have "\<forall>t \<in> set (tokens (exec s op)). tokenInv t"
      by (rule exec_inv)
    then show ?case
      using Cons.IH by simp
  qed
  then show ?thesis
    by (simp add: run_def tokenInv_def)
qed

theorem core_operations_invariant_witness:
  "list_all tokenInv (tokens counterStore)
   \<and> list_all tokenInv (tokens (run counterStore dayRun))
   \<and> map (\<lambda>t. (tokenNumber t, status t, counterId t)) (tokens (run counterStore dayRun))
       = [(''P-001'', COMPLETED, None), (''B-001'', SERVING, Some 1)]"
proof -
  have start: "\<forall>t \<in> set (tokens counterStore). tokenInv t"
    by (simp add: counterStore_def)
  from core_operations_invariant [OF start, of dayRun]
  have "\<forall>t \<in> set (tokens (run counterStore dayRun)). tokenInv t"
    by (simp add: tokenInv_def)
  with start run_dayRun show ?thesis
    by (simp add: list_all_iff)
qed

section \<open>Sequential numbering\<close>

lemma digit_0: "digit 0 = CHR ''0''"
  by (simp add: digit_def)

lemma digitValue_digit: "d < 10 \<Longrightarrow> digitValue (digit d) = d"
proof -
  assume "d < 10"
  then have "d \<in> {0, 1, 2, 3, 4, 5, 6, 7, 8, 9}"
    by auto
  then show ?thesis
    by (auto simp: digitValue_def digit_def)
qed

lemma parseInt_digits_snoc:
  "parseInt_digits (s @ [c]) = 10 * parseInt_digits s + digitValue c"
  by (simp add: parseInt_digits_def)

lemma parseInt_digits_String_nat: "parseInt_digits (String_nat n) = n"
proof (induction n rule: String_nat.induct)
  case (1 n)
  show ?case
  proof (cases "n < 10")
    case True
    then show ?thesis
      by (subst String_nat.simps) (simp add: parseInt_digits_def digitValue_digit)
  next
    case False
    with "1.IH" show ?thesis
      by (subst String_nat.simps) (simp add: parseInt_digits_snoc digitValue_digit)
  qed
qed

lemma parseInt_digits_zeros:
  "parseInt_digits (replicate k (CHR ''0'') @ s) = parseInt_digits s"
proof -
  have "foldl (\<lambda>acc c. 10 * acc + digitValue c) 0 (replicate k (CHR ''0'')) = 0"
    by (induction k) (simp_all add: digitValue_def)
  then show ?thesis
    by (simp add: parseInt_digits_def)
qed

lemma parseInt_digits_padStart:
  "parseInt_digits (padStart 3 (CHR ''0'') (String_nat n)) = n"
  by (simp add: padStart_def parseInt_digits_zeros parseInt_digits_String_nat)

lemma formatTokenNumber_inj:
  assumes "formatTokenNumber prefix a = formatTokenNumber prefix b"
  shows "a = b"
proof -
  from assms have "padStart 3 (CHR ''0'') (String_nat a) = padStart 3 (CHR ''0'') (String_nat b)"
    by (simp add: formatTokenNumber_def)
  then have "parseInt_digits (padStart 3 (CHR ''0'') (String_nat a))
               = parseInt_digits (padStart 3 (CHR ''0'') (String_nat b))"
    by simp
  then show ?thesis
    by (simp add: parseInt_digits_padStart)
qed

lemma getServicePrefix_no_dash:
  "CHR ''-'' \<notin> set (getServicePrefix svc)"
proof (cases "map_of prefixMap svc")
  case (Some p)
  then have "p \<in> {''P'', ''B'', ''G'', ''D''}"
    by (auto simp: prefixMap_def split: if_splits)
  with Some show ?thesis
    by (auto simp: getServicePrefix_def)
next
  case None
  show ?thesis
  proof (cases "svc \<in> set objectPrototypeMembers")
    case True
    then have "CHR ''-'' \<notin> set svc"
      by (auto simp: objectPrototypeMembers_def)
    then have "CHR ''-'' \<notin> set (inheritedMemberString svc)"
      by (simp add: inheritedMemberString_def)
    with None True show ?thesis
      by (simp add: getServicePrefix_def)
  next
    case False
    with None show ?thesis
      by (simp add: getServicePrefix_def)
  qed
qed

lemma sequenceNumber_format:
  "sequenceNumber (formatTokenNumber (getServicePrefix svc) k) = k"
proof -
  have "\<forall>c \<in> set (getServicePrefix svc). c \<noteq> CHR ''-''"
    using getServicePrefix_no_dash [of svc] by auto
  then have "dropWhile (\<lambda>c. c \<noteq> CHR ''-'') (getServicePrefix svc @ ''-'' @ rest) = ''-'' @ rest" for rest
    by (simp add: dropWhile_append3)
  then have "drop 1 (dropWhile (\<lambda>c. c \<noteq> CHR ''-'') (formatTokenNumber (getServicePrefix svc) k))
          = padStart 3 (CHR ''0'') (String_nat k)"
    by (simp add: formatTokenNumber_def)
  then show ?thesis
    by (simp add: sequenceNumber_def parseInt_digits_padStart)
qed

lemma String_nat_small: "n < 10 \<Longrightarrow> String_nat n = [digit n]"
  by (subst String_nat.simps) simp

lemma String_nat_step: "\<not> n < 10 \<Longrightarrow> String_nat n = String_nat (n div 10) @ [digit (n mod 10)]"
  by (subst String_nat.simps) simp

lemma formatTokenNumber_three_digits:
  assumes "k < 1000"
  shows "formatTokenNumber prefix k
           = prefix @ ''-'' @ [digit (k div 100), digit (k div 10 mod 10), digit (k mod 10)]"
proof -
  consider "k < 10" | "10 \<le> k" "k < 100" | "100 \<le> k" by linarith
  then show ?thesis
  proof cases
    case 1
    then show ?thesis
      by (simp add: formatTokenNumber_def padStart_def numeral_2_eq_2 digit_0 String_nat_small)
  next
    case 2
    then have a: "k div 10 < 10" and b: "\<not> k < 10" and c: "k div 100 = 0"
      by simp_all
    from a b have "String_nat k = [digit (k div 10), digit (k mod 10)]"
      by (simp add: String_nat_step String_nat_small)
    with a c show ?thesis
      by (simp add: formatTokenNumber_def padStart_def digit_0)
  next
    case 3
    with assms have a: "k div 10 div 10 < 10" and b: "\<not> k div 10 < 10" and c: "\<not> k < 10"
      by simp_all
    have d: "k div 10 div 10 = k div 100"
      by (simp add: div_mult2_eq [symmetric])
    from a b c have "String_nat k = [digit (k div 10 div 10), digit (k div 10 mod 10), digit (k mod 10)]"
      by (simp add: String_nat_step String_nat_small)
    with d show ?thesis
      by (simp add: formatTokenNumber_def padStart_def)
  qed
qed


lemma now_in_today: "todayStart now \<le> now \<and> now \<le> todayEnd now"
proof -
  have "0 \<le> now mod 86400000" and "now mod 86400000 < 86400000"
    by simp_all
  then show ?thesis
    by (simp add: todayStart_def todayEnd_def msPerDay_def)
qed

lemma tokenNumberLoop_free:
  assumes "findUnique_tokenNumber rows (formatTokenNumber prefix (c + 1)) = None"
  shows "tokenNumberLoop rows prefix c 0 = (0, formatTokenNumber prefix (c + 1))"
  using assms by (subst tokenNumberLoop.simps) simp

lemma generateToken_free:
  assumes "findUnique_tokenNumber (tokens s) (formatTokenNumber (getServicePrefix svc) (c + 1)) = None"
    and "count_where (\<lambda>t. serviceType t = svc \<and> todayStart now \<le> createdAt t
                           \<and> createdAt t \<le> todayEnd now) (tokens s) = c"
  shows "\<exists>r row. generateToken s svc now = Inr r
           \<and> d_tokenNumber (snd r) = formatTokenNumber (getServicePrefix svc) (c + 1)
           \<and> tokens (fst r) = tokens s @ [row]
           \<and> tokenNumber row = formatTokenNumber (getServicePrefix svc) (c + 1)
           \<and> serviceType row = svc \<and> createdAt row = now"
  using assms by (simp add: generateToken_def Let_def tokenNumberLoop_free maxAttempts_def)

lemma generateTokens_from:
  assumes "\<forall>now \<in> set nows. todayStart now = day"
    and "count_where (\<lambda>t. serviceType t = svc \<and> day \<le> createdAt t
                           \<and> createdAt t \<le> day + (msPerDay - 1)) (tokens s) = c"
    and "\<forall>t \<in> set (tokens s). \<forall>k. c < k \<and> k \<le> c + length nows \<longrightarrow>
           tokenNumber t \<noteq> formatTokenNumber (getServicePrefix svc) k"
  shows "\<exists>s'. generateTokens s svc nows =
           Inr (s', map (formatTokenNumber (getServicePrefix svc)) [c + 1 ..< c + 1 + length nows])"
  using assms
proof (induction nows arbitrary: s c)
  case Nil
  show ?case by simp
next
  case (Cons now nows)
  let ?fmt = "formatTokenNumber (getServicePrefix svc)"
  from Cons.prems(1) have day: "todayStart now = day" and rest: "\<forall>n \<in> set nows. todayStart n = day"
    by simp_all
  from day have "end": "todayEnd now = day + (msPerDay - 1)"
    by (simp add: todayEnd_def)
  from Cons.prems(3) have "\<forall>t \<in> set (tokens s). tokenNumber t \<noteq> ?fmt (c + 1)"
    by simp
  then have free: "findUnique_tokenNumber (tokens s) (?fmt (c + 1)) = None"
    by (simp add: findUnique_tokenNumber_None)
  from Cons.prems(2) have cnt: "count_where (\<lambda>t. serviceType t = svc \<and> todayStart now \<le> createdAt t
                           \<and> createdAt t \<le> todayEnd now) (tokens s) = c"
    by (simp add: day "end")
  from generateToken_free [OF free cnt] obtain r row where
    r: "generateToken s svc now = Inr r" and code: "d_tokenNumber (snd r) = ?fmt (c + 1)"
    and rows: "tokens (fst r) = tokens s @ [row]" and tn: "tokenNumber row = ?fmt (c + 1)"
    and svc: "serviceType row = svc" and cr: "createdAt row = now"
    by blast
  from now_in_today [of now] day "end" cr have "day \<le> createdAt row \<and> createdAt row \<le> day + (msPerDay - 1)"
    by simp
  with svc Cons.prems(2) rows
  have cnt': "count_where (\<lambda>t. serviceType t = svc \<and> day \<le> createdAt t
                           \<and> createdAt t \<le> day + (msPerDay - 1)) (tokens (fst r)) = c + 1"
    by (simp add: count_where_def)
  have fresh: "\<forall>t \<in> set (tokens (fst r)). \<forall>k. c + 1 < k \<and> k \<le> c + 1 + length nows \<longrightarrow>
           tokenNumber t \<noteq> ?fmt k"
  proof (intro ballI allI impI)
    fix t k assume t: "t \<in> set (tokens (fst r))" and k: "c + 1 < k \<and> k \<le> c + 1 + length nows"
    show "tokenNumber t \<noteq> ?fmt k"
    proof (cases "t \<in> set (tokens s)")
      case True
      with Cons.prems(3) k show ?thesis by simp
    next
      case False
      with t rows have "t = row" by simp
      with tn k formatTokenNumber_inj [of "getServicePrefix svc" "c + 1" k] show ?thesis
        by auto
    qed
  qed
  from Cons.IH [OF rest cnt' fresh] obtain s' where
    s': "generateTokens (fst r) svc nows = Inr (s', map ?fmt [c + 1 + 1 ..< c + 1 + 1 + length nows])"
    by blast
  have step: "generateTokens s svc (now # nows) =
                Inr (s', ?fmt (c + 1) # map ?fmt [c + 1 + 1 ..< c + 1 + 1 + length nows])"
    by (simp only: generateTokens.simps r s' code sum.case fst_conv snd_conv)
  have e1: "Suc (c + 1) = c + 1 + 1" and e2: "c + 1 + length (now # nows) = c + 1 + 1 + length nows"
    by simp_all
  have "[c + 1 ..< c + 1 + length (now # nows)] = (c + 1) # [Suc (c + 1) ..< c + 1 + length (now # nows)]"
    by (rule upt_conv_Cons) simp
  then have lst: "[c + 1 ..< c + 1 + length (now # nows)] = (c + 1) # [c + 1 + 1 ..< c + 1 + 1 + length nows]"
    by (simp only: e1 e2)
  show ?case
    by (rule exI [of _ s']) (simp only: step lst list.map)
qed

text \<open>
  C3, as the claim states it, fails when an earlier day left a row with the candidate
  code. The store holds \<open>P-001\<close> from the first day and no Parcel token of the second
  day; two calls on the second day produce \<open>P-002\<close> and \<open>P-003\<close>, sequence numbers 2 and
  3, not 1 and 2. Besides, the number 1000 is formatted with four digits.
\<close>

theorem generateToken_sequence_counterexample:
  "count_where (\<lambda>t. serviceType t = ''Parcel Drop-off'' \<and> todayStart 86400100 \<le> createdAt t
                    \<and> createdAt t \<le> todayEnd 86400100) (tokens yesterdayStore) = 0
   \<and> todayStart 86400200 = todayStart 86400100
   \<and> map_sum id snd (generateTokens yesterdayStore ''Parcel Drop-off'' [86400100, 86400200])
       = Inr [''P-002'', ''P-003'']
   \<and> map sequenceNumber [''P-002'', ''P-003''] = [2, 3]
   \<and> formatTokenNumber ''P'' 1000 = ''P-1000''"
  by code_simp

text \<open>
  C3, amended. Let all calls fall into one day, let the store hold no token of the
  service type created that day and no token at all that carries one of the codes
  numbered 1 to N on the service type's prefix. Then N calls of \<open>generateToken\<close> in a row
  all succeed and hand out, in call order, the codes numbered 1 to N: prefix, dash, and
  the number padded with zeros to at least three digits, which is exactly three digits
  below 1000.
\<close>

theorem generateToken_sequential:
  assumes "\<forall>now \<in> set nows. todayStart now = day"
    and "\<forall>t \<in> set (tokens s). serviceType t = svc \<longrightarrow>
           \<not> (day \<le> createdAt t \<and> createdAt t \<le> day + (msPerDay - 1))"
    and "\<forall>t \<in> set (tokens s). \<forall>k \<in> {1 .. length nows}.
           tokenNumber t \<noteq> formatTokenNumber (getServicePrefix svc) k"
  shows "(\<exists>s'. generateTokens s svc nows =
            Inr (s', map (formatTokenNumber (getServicePrefix svc)) [1 ..< Suc (length nows)]))
         \<and> map sequenceNumber (map (formatTokenNumber (getServicePrefix svc)) [1 ..< Suc (length nows)])
             = [1 ..< Suc (length nows)]
         \<and> (\<forall>k < 1000. formatTokenNumber (getServicePrefix svc) k =
               getServicePrefix svc @ ''-'' @ [digit (k div 100), digit (k div 10 mod 10), digit (k mod 10)])"
proof (intro conjI)
  from assms(2) have "filter (\<lambda>t. serviceType t = svc \<and> day \<le> createdAt t
                           \<and> createdAt t \<le> day + (msPerDay - 1)) (tokens s) = []"
    by (auto simp: filter_empty_conv)
  then have cnt: "count_where (\<lambda>t. serviceType t = svc \<and> day \<le> createdAt t
                           \<and> createdAt t \<le> day + (msPerDay - 1)) (tokens s) = 0"
    by (simp add: count_where_def)
  from assms(3) have fresh: "\<forall>t \<in> set (tokens s). \<forall>k. 0 < k \<and> k \<le> 0 + length nows \<longrightarrow>
           tokenNumber t \<noteq> formatTokenNumber (getServicePrefix svc) k"
    by auto
  from generateTokens_from [OF assms(1) cnt fresh]
  show "\<exists>s'. generateTokens s svc nows =
            Inr (s', map (formatTokenNumber (getServicePrefix svc)) [1 ..< Suc (length nows)])"
    by simp
  show "map sequenceNumber (map (formatTokenNumber (getServicePrefix svc)) [1 ..< Suc (length nows)])
             = [1 ..< Suc (length nows)]"
    by (simp add: sequenceNumber_format comp_def map_idI)
  show "\<forall>k < 1000. formatTokenNumber (getServicePrefix svc) k =
               getServicePrefix svc @ ''-'' @ [digit (k div 100), digit (k div 10 mod 10), digit (k mod 10)]"
    by (simp add: formatTokenNumber_three_digits)
qed

theorem generateToken_sequential_witness:
  "\<exists>s'. generateTokens yesterdayStore ''Banking Services'' [86400100, 86400200, 86400300] =
            Inr (s', [''B-001'', ''B-002'', ''B-003''])"
proof -
  have a: "\<forall>now \<in> set [86400100, 86400200, 86400300]. todayStart now = 86400000"
    by (simp add: todayStart_def msPerDay_def)
  have b: "\<forall>t \<in> set (tokens yesterdayStore). serviceType t = ''Banking Services'' \<longrightarrow>
           \<not> (86400000 \<le> createdAt t \<and> createdAt t \<le> 86400000 + (msPerDay - 1))"
    by (simp add: yesterdayStore_def mkToken_def)
  have p: "getServicePrefix ''Banking Services'' = ''B''"
    by (simp add: getServicePrefix_def prefixMap_def)
  have c: "\<forall>t \<in> set (tokens yesterdayStore). \<forall>k \<in> {1 .. length [86400100, 86400200, 86400300 :: int]}.
           tokenNumber t \<noteq> formatTokenNumber (getServicePrefix ''Banking Services'') k"
    by (simp add: yesterdayStore_def mkToken_def p formatTokenNumber_def)
  have f: "map (formatTokenNumber ''B'') [1 ..< Suc (length [86400100, 86400200, 86400300 :: int])]
             = [''B-001'', ''B-002'', ''B-003'']"
    by code_simp
  from generateToken_sequential [OF a b c, THEN conjunct1] show ?thesis
    unfolding p f .
qed

end
